theory Spec2Isabelle
  imports Complex_Main
begin

section \<open>The Fruit Catcher game engine (class GameEngine)\<close>

text \<open>
  A shallow embedding of the class \<^verbatim>\<open>GameEngine\<close>. Every method becomes a function
  from the engine's state to the state after the call. JavaScript numbers are modelled by
  \<open>int\<close> where the code only ever stores integers (score, level, lane indices, the tick
  counter, clock readings in milliseconds) and by \<open>real\<close> where fractions occur (elapsed
  seconds, the random rolls, the time limit, vertical positions). All values the game
  computes are far below \<open>2 ^ 53\<close>, where the integer arithmetic of doubles is exact.
  Where the code rounds a fraction and the rounding can change what it does (the product
  and the two decimal literals of \<^verbatim>\<open>spawnItem\<close>), the rounding to the nearest double is
  written out as \<open>round_double\<close>.

  Reads of the environment are parameters: \<open>now\<close> is the value of \<^verbatim>\<open>Date.now()\<close> and
  \<open>r1\<close>, \<open>r2\<close> are the two values of \<^verbatim>\<open>Math.random()\<close> drawn by \<^verbatim>\<open>spawnItem\<close>.
\<close>

subsection \<open>Data\<close>

text \<open>
  A falling item, the object literal pushed by \<^verbatim>\<open>spawnItem\<close>. The field \<open>x\<close> is
  \<^verbatim>\<open>this.lanes[laneIndex]\<close>, which is \<^verbatim>\<open>undefined\<close> (here \<open>None\<close>) for an index
  outside the array.
\<close>

record item =
  x :: "int option"
  y :: real
  lane :: int
  type :: string
  active :: bool

text \<open>
  The registered round-end callback is opaque: all the engine does with it is to call it
  with two arguments. Each call is recorded, in order, in the trace \<open>endCalls\<close>, which
  is not a field of the class but the observable effect of \<^verbatim>\<open>this.onGameEnd(...)\<close>.
\<close>

datatype callback = Callback

text \<open>
  The fields of the class. \<open>startTime\<close> is not set by the constructor, so it is
  \<^verbatim>\<open>undefined\<close> (here \<open>None\<close>) until the first \<^verbatim>\<open>start\<close>.
\<close>

record game_engine =
  score :: int
  level :: int
  timeLimit :: real
  isGameActive :: bool
  basketPosition :: int
  items :: "item list"
  spawnTimer :: int
  lanes :: "int list"
  spawnInterval :: int
  dropSpeed :: int
  onGameEnd :: "callback option"
  startTime :: "int option"
  endCalls :: "(int \<times> int) list"

text \<open>The argument of \<^verbatim>\<open>start\<close>: an object whose \<^verbatim>\<open>timeLimit\<close> may be missing.\<close>

record config =
  cfg_timeLimit :: "real option"

text \<open>Reading an array at an index: \<^verbatim>\<open>undefined\<close> outside the array.\<close>

definition js_index :: "'a list \<Rightarrow> int \<Rightarrow> 'a option" where
  "js_index xs i = (if 0 \<le> i \<and> i < int (length xs) then Some (xs ! nat i) else None)"

subsection \<open>Constructor and lifecycle\<close>

definition constructor :: game_engine where
  "constructor =
     \<lparr> score = 0, level = 1, timeLimit = 60, isGameActive = False,
       basketPosition = 1, items = [], spawnTimer = 0,
       lanes = [100, 300, 500], spawnInterval = 60, dropSpeed = 3,
       onGameEnd = None, startTime = None, endCalls = [] \<rparr>"

text \<open>
  \<^verbatim>\<open>config.timeLimit || 60\<close>: a missing time limit and the falsy number 0 both give
  60; every other number is kept.
\<close>

definition start :: "int \<Rightarrow> config \<Rightarrow> game_engine \<Rightarrow> game_engine" where
  "start now cfg g =
     g\<lparr> isGameActive := True,
        score := 0,
        level := 1,
        timeLimit := (case cfg_timeLimit cfg of
                        None \<Rightarrow> 60
                      | Some t \<Rightarrow> if t = 0 then 60 else t),
        items := [],
        basketPosition := 1,
        spawnTimer := 0,
        startTime := Some now \<rparr>"

definition stop :: "game_engine \<Rightarrow> game_engine" where
  "stop g =
     (let g1 = g\<lparr> isGameActive := False \<rparr>
      in case onGameEnd g1 of
           None \<Rightarrow> g1
         | Some cb \<Rightarrow> g1\<lparr> endCalls := endCalls g1 @ [(score g1, level g1)] \<rparr>)"

definition setGameEndCallback :: "callback option \<Rightarrow> game_engine \<Rightarrow> game_engine" where
  "setGameEndCallback cb g = g\<lparr> onGameEnd := cb \<rparr>"

subsection \<open>Pose input\<close>

text \<open>
  The three pose names compared by \<^verbatim>\<open>onPoseDetected\<close> are Korean words; a string is a
  list of bytes here, so each is written as its UTF-8 encoding: U+C67C U+CABD (left),
  U+C815 U+BA74 (front) and U+C624 U+B978 U+CABD (right).
\<close>

definition pose_left :: string where
  "pose_left = [CHR 0xEC, CHR 0x99, CHR 0xBC, CHR 0xEC, CHR 0xAA, CHR 0xBD]"

definition pose_center :: string where
  "pose_center = [CHR 0xEC, CHR 0xA0, CHR 0x95, CHR 0xEB, CHR 0xA9, CHR 0xB4]"

definition pose_right :: string where
  "pose_right = [CHR 0xEC, CHR 0x98, CHR 0xA4, CHR 0xEB, CHR 0xA5, CHR 0xB8,
                 CHR 0xEC, CHR 0xAA, CHR 0xBD]"

definition onPoseDetected :: "string \<Rightarrow> game_engine \<Rightarrow> game_engine" where
  "onPoseDetected poseName g =
     (if \<not> isGameActive g then g
      else if poseName = pose_left then g\<lparr> basketPosition := 0 \<rparr>
      else if poseName = pose_center then g\<lparr> basketPosition := 1 \<rparr>
      else if poseName = pose_right then g\<lparr> basketPosition := 2 \<rparr>
      else g)"

subsection \<open>Rounding to double precision\<close>

text \<open>
  The result of an arithmetic operation on doubles, and the value of a decimal literal,
  is the exact value rounded to the nearest double, a tie going to the even significand.
  \<open>round_even\<close> rounds a real to the nearest integer in that way and \<open>to_grid u\<close> rounds to
  the nearest multiple of \<open>u\<close>. \<open>round_search\<close> looks for the binade \<open>[b, 2 * b)\<close> of a
  non-negative value, from \<open>2 ^ 1023\<close> downwards, and rounds to that binade's grid of 53
  significant bits; below the smallest normal binade the grid is \<open>2 ^ -1074\<close>. Values
  beyond the largest double, where the code would get infinity, are outside this model.
  A value is a double when rounding leaves it unchanged.
\<close>

definition round_even :: "real \<Rightarrow> int" where
  "round_even v =
     (let f = \<lfloor>v\<rfloor>; d = v - real_of_int f
      in if d < 1 / 2 then f
         else if 1 / 2 < d then f + 1
         else if even f then f else f + 1)"

definition to_grid :: "real \<Rightarrow> real \<Rightarrow> real" where
  "to_grid u v = u * real_of_int (round_even (v / u))"

fun round_search :: "nat \<Rightarrow> real \<Rightarrow> real \<Rightarrow> real" where
  "round_search 0 b v = to_grid (2 * b / 2 ^ 52) v"
| "round_search (Suc n) b v =
     (if b \<le> v then to_grid (b / 2 ^ 52) v else round_search n (b / 2) v)"

definition round_double :: "real \<Rightarrow> real" where
  "round_double v =
     (if v < 0 then - round_search 2046 (2 ^ 1023) (- v)
      else round_search 2046 (2 ^ 1023) v)"

definition is_double :: "real \<Rightarrow> bool" where
  "is_double v \<longleftrightarrow> round_double v = v"

subsection \<open>Spawning\<close>

text \<open>
  \<open>r1\<close> and \<open>r2\<close> are the doubles returned by the two calls of \<^verbatim>\<open>Math.random()\<close>.
  The product \<^verbatim>\<open>Math.random() * 3\<close> is rounded before \<^verbatim>\<open>Math.floor\<close> reads it, and
  \<^verbatim>\<open>0.8\<close> and \<^verbatim>\<open>0.6\<close> are the doubles nearest to these decimals.
\<close>

definition spawnItem :: "real \<Rightarrow> real \<Rightarrow> game_engine \<Rightarrow> game_engine" where
  "spawnItem r1 r2 g =
     (let laneIndex = \<lfloor>round_double (r1 * 3)\<rfloor>;
          typeRoll = r2;
          ty = (if level g \<ge> 2 \<and> typeRoll > round_double 0.8 then ''bomb''
                else if typeRoll > round_double 0.6 then ''grape''
                else ''apple'')
      in g\<lparr> items := items g @
                [\<lparr> x = js_index (lanes g) laneIndex, y = - 50, lane = laneIndex,
                   type = ty, active = True \<rparr>] \<rparr>)"

subsection \<open>Movement and collisions\<close>

definition handleCollision :: "item \<Rightarrow> game_engine \<Rightarrow> item \<times> game_engine" where
  "handleCollision it g =
     (if type it = ''bomb'' then (it\<lparr> active := False \<rparr>, stop g)
      else
        let it1 = it\<lparr> active := False \<rparr>;
            g1 = (if type it = ''apple'' then g\<lparr> score := score g + 100 \<rparr> else g);
            g2 = (if type it = ''grape'' then g1\<lparr> score := score g1 + 200 \<rparr> else g1)
        in (it1, g2))"

text \<open>
  The body of the \<^verbatim>\<open>for\<close> loop of \<^verbatim>\<open>updateItems\<close> for one item: the item objects
  are mutated in place, here the updated item is returned with the engine.
\<close>

definition updateItems_body :: "real \<Rightarrow> item \<Rightarrow> game_engine \<Rightarrow> item \<times> game_engine" where
  "updateItems_body speed it g =
     (if \<not> active it then (it, g)
      else
        let it1 = it\<lparr> y := y it + speed \<rparr>;
            (it2, g1) = (if y it1 > 500 \<and> y it1 < 560 \<and> lane it1 = basketPosition g
                         then handleCollision it1 g else (it1, g));
            it3 = (if y it2 > 650 then it2\<lparr> active := False \<rparr> else it2)
        in (it3, g1))"

fun updateItems_loop :: "real \<Rightarrow> item list \<Rightarrow> game_engine \<Rightarrow> item list \<times> game_engine" where
  "updateItems_loop speed [] g = ([], g)"
| "updateItems_loop speed (it # its) g =
     (let (it', g1) = updateItems_body speed it g;
          (its', g2) = updateItems_loop speed its g1
      in (it' # its', g2))"

definition updateItems :: "game_engine \<Rightarrow> game_engine" where
  "updateItems g =
     (let speed = 3 + (level g * 2);
          (its', g1) = updateItems_loop (real_of_int speed) (items g) g
      in g1\<lparr> items := filter active its' \<rparr>)"

subsection \<open>The per-frame update\<close>

text \<open>
  \<^verbatim>\<open>(Date.now() - this.startTime) / 1000\<close>. With \<^verbatim>\<open>startTime\<close> undefined the
  difference is NaN (here \<open>None\<close>), and every comparison with NaN is false.
\<close>

definition elapsed_seconds :: "int \<Rightarrow> game_engine \<Rightarrow> real option" where
  "elapsed_seconds now g =
     (case startTime g of
        None \<Rightarrow> None
      | Some t0 \<Rightarrow> Some (real_of_int (now - t0) / 1000))"

definition update :: "int \<Rightarrow> real \<Rightarrow> real \<Rightarrow> game_engine \<Rightarrow> game_engine" where
  "update now r1 r2 g =
     (if \<not> isGameActive g then g
      else
        let elapsed = elapsed_seconds now g;
            g1 = g\<lparr> level := (case elapsed of
                                None \<Rightarrow> 3
                              | Some e \<Rightarrow> if e < 20 then 1 else if e < 40 then 2 else 3) \<rparr>
        in if (case elapsed of None \<Rightarrow> False | Some e \<Rightarrow> timeLimit g1 - e \<le> 0)
           then stop g1
           else
             let g2 = g1\<lparr> spawnTimer := spawnTimer g1 + 1 \<rparr>;
                 currentSpawnInterval = max 20 (60 - (level g2 * 10));
                 g3 = (if spawnTimer g2 > currentSpawnInterval
                       then (spawnItem r1 r2 g2)\<lparr> spawnTimer := 0 \<rparr>
                       else g2)
             in updateItems g3)"

subsection \<open>Rendering\<close>

text \<open>
  What \<^verbatim>\<open>render\<close> hands to the canvas: the basket's horizontal position, each item's
  icon and position, and the numbers printed as score, remaining time and level. The
  icons are emoji in the source and are named in words here. The remaining time is NaN
  (here \<open>None\<close>) when \<^verbatim>\<open>startTime\<close> is undefined.
\<close>

record render_state =
  basketX :: "int option"
  icons :: "(string \<times> int option \<times> real) list"
  scoreText :: int
  timeText :: "real option"
  levelText :: int

definition icon_of :: "item \<Rightarrow> string" where
  "icon_of it =
     (let icon0 = ''apple-icon'';
          icon1 = (if type it = ''grape'' then ''grape-icon'' else icon0);
          icon2 = (if type it = ''bomb'' then ''bomb-icon'' else icon1)
      in icon2)"

definition render :: "int \<Rightarrow> game_engine \<Rightarrow> render_state" where
  "render now g =
     \<lparr> basketX = js_index (lanes g) (basketPosition g),
       icons = map (\<lambda>it. (icon_of it, x it, y it)) (items g),
       scoreText = score g,
       timeText = (case startTime g of
                     None \<Rightarrow> None
                   | Some t0 \<Rightarrow>
                       let elapsed = \<lfloor>real_of_int (now - t0) / 1000\<rfloor>;
                           remaining = max 0 (timeLimit g - real_of_int elapsed)
                       in Some remaining),
       levelText = level g \<rparr>"

subsection \<open>The fall of one item\<close>

text \<open>
  The vertical position of an item that is advanced once per tick, the level of each tick
  being given: each tick adds \<^verbatim>\<open>3 + (this.level * 2)\<close>, as \<^verbatim>\<open>updateItems\<close> does.
\<close>

fun fall :: "real \<Rightarrow> int list \<Rightarrow> real" where
  "fall y0 [] = y0"
| "fall y0 (l # ls) = fall (y0 + real_of_int (3 + (l * 2))) ls"

subsection \<open>A run of passes over the items\<close>

text \<open>
  While a round runs, each frame sets the level (\<^verbatim>\<open>update\<close>, from the clock) and the
  basket's lane (\<^verbatim>\<open>onPoseDetected\<close>) and then calls \<^verbatim>\<open>updateItems\<close>. \<open>tick_at\<close> is
  one such pass at a given level and lane, and \<open>run_ticks lv bp n\<close> is \<open>n\<close> passes in a
  row, pass \<open>i\<close> at level \<open>lv i\<close> with the basket in lane \<open>bp i\<close>.
\<close>

definition tick_at :: "int \<Rightarrow> int \<Rightarrow> game_engine \<Rightarrow> game_engine" where
  "tick_at l bp g = updateItems (g\<lparr> level := l, basketPosition := bp \<rparr>)"

fun run_ticks :: "(nat \<Rightarrow> int) \<Rightarrow> (nat \<Rightarrow> int) \<Rightarrow> nat \<Rightarrow> game_engine \<Rightarrow> game_engine" where
  "run_ticks lv bp 0 g = g"
| "run_ticks lv bp (Suc n) g = tick_at (lv n) (bp n) (run_ticks lv bp n g)"

subsection \<open>Reference predicates for the movement loop\<close>

text \<open>
  What one pass of \<^verbatim>\<open>updateItems\<close> does to an item, said without the loop: an
  active item \<open>collides\<close> when its advanced position is strictly inside the band and it is
  in the basket's lane, \<open>leaves_field\<close> when its advanced position is beyond 650;
  \<open>points\<close> is what a collision adds to the score and \<open>bomb_hit\<close> says that the
  collision is one with a bomb.
\<close>

definition advance :: "real \<Rightarrow> item \<Rightarrow> item" where
  "advance speed it = it\<lparr> y := y it + speed \<rparr>"

definition collides :: "real \<Rightarrow> int \<Rightarrow> item \<Rightarrow> bool" where
  "collides speed bp it =
     (active it \<and> 500 < y it + speed \<and> y it + speed < 560 \<and> lane it = bp)"

definition leaves_field :: "real \<Rightarrow> item \<Rightarrow> bool" where
  "leaves_field speed it = (active it \<and> 650 < y it + speed)"

definition survives :: "real \<Rightarrow> int \<Rightarrow> item \<Rightarrow> bool" where
  "survives speed bp it =
     (active it \<and> \<not> collides speed bp it \<and> \<not> leaves_field speed it)"

definition points :: "item \<Rightarrow> int" where
  "points it = (if type it = ''apple'' then 100 else if type it = ''grape'' then 200 else 0)"

definition bomb_hit :: "real \<Rightarrow> int \<Rightarrow> item \<Rightarrow> bool" where
  "bomb_hit speed bp it = (collides speed bp it \<and> type it = ''bomb'')"

definition speed_of :: "game_engine \<Rightarrow> real" where
  "speed_of g = real_of_int (3 + (level g * 2))"

section \<open>Auxiliary facts\<close>

subsection \<open>Rounding\<close>

lemma round_even_le:
  assumes "v \<le> real_of_int K"
  shows "round_even v \<le> K"
proof -
  have f: "\<lfloor>v\<rfloor> \<le> K" using assms by (simp add: floor_le_iff)
  show ?thesis
  proof (cases "\<lfloor>v\<rfloor> = K")
    case True
    then have "v - real_of_int \<lfloor>v\<rfloor> \<le> 0" using assms by simp
    then show ?thesis using True by (simp add: round_even_def Let_def)
  next
    case False
    then have "\<lfloor>v\<rfloor> + 1 \<le> K" using f by simp
    then show ?thesis by (simp add: round_even_def Let_def)
  qed
qed

lemma round_even_ge:
  assumes "real_of_int K \<le> v"
  shows "K \<le> round_even v"
proof -
  have "K \<le> \<lfloor>v\<rfloor>" using assms by (simp add: le_floor_iff)
  then show ?thesis by (simp add: round_even_def Let_def)
qed

lemma round_even_less_even:
  assumes "even N"
  shows "round_even v < N \<longleftrightarrow> v < real_of_int N - 1 / 2"
proof
  assume a: "v < real_of_int N - 1 / 2"
  then have "v < real_of_int N" by simp
  then have f: "\<lfloor>v\<rfloor> < N" by (simp add: floor_less_iff)
  show "round_even v < N"
  proof (cases "\<lfloor>v\<rfloor> = N - 1")
    case True
    then have "v - real_of_int \<lfloor>v\<rfloor> < 1 / 2" using a by simp
    then show ?thesis using f by (simp add: round_even_def Let_def)
  next
    case False
    then have "\<lfloor>v\<rfloor> + 1 < N" using f by simp
    then show ?thesis by (simp add: round_even_def Let_def)
  qed
next
  assume r: "round_even v < N"
  show "v < real_of_int N - 1 / 2"
  proof (rule ccontr)
    assume "\<not> v < real_of_int N - 1 / 2"
    then have b: "real_of_int N - 1 / 2 \<le> v" by simp
    show False
    proof (cases "real_of_int N \<le> v")
      case True
      then have "N \<le> round_even v" by (rule round_even_ge)
      with r show False by simp
    next
      case False
      then have "v < real_of_int N" by simp
      moreover have "real_of_int (N - 1) \<le> v" using b by simp
      ultimately have fl: "\<lfloor>v\<rfloor> = N - 1" by (simp add: floor_eq_iff)
      then have od: "odd \<lfloor>v\<rfloor>" using assms by simp
      have "1 / 2 \<le> v - real_of_int \<lfloor>v\<rfloor>" using b fl by simp
      then have "round_even v = \<lfloor>v\<rfloor> + 1"
        using od by (simp add: round_even_def Let_def)
      with fl r show False by simp
    qed
  qed
qed

lemma round_search_skip:
  assumes "0 < b" and "v < 2 * b / 2 ^ j" and "j \<le> n"
  shows "round_search n b v = round_search (n - j) (b / 2 ^ j) v"
  using assms
proof (induction j arbitrary: n b)
  case 0
  show ?case by simp
next
  case (Suc j)
  from Suc.prems(3) obtain n' where n: "n = Suc n'" by (cases n) auto
  have "b / 2 ^ j \<le> b" using Suc.prems(1) by (simp add: field_simps)
  moreover have "v < b / 2 ^ j" using Suc.prems(2) by simp
  ultimately have "v < b" by simp
  then have "round_search n b v = round_search n' (b / 2) v" by (simp add: n)
  also have "\<dots> = round_search (n' - j) (b / 2 / 2 ^ j) v"
    using Suc.prems by (intro Suc.IH) (simp_all add: n)
  finally show ?case by (simp add: n)
qed

lemma round_search_binade:
  assumes "0 < b" and "b / 2 ^ j \<le> v" and "v < 2 * b / 2 ^ j" and "j < n"
  shows "round_search n b v = to_grid (b / 2 ^ j / 2 ^ 52) v"
proof -
  obtain m where m: "n - j = Suc m" using assms(4) by (cases "n - j") auto
  have "round_search n b v = round_search (n - j) (b / 2 ^ j) v"
    using assms by (intro round_search_skip) simp_all
  then show ?thesis using assms(2) by (simp add: m)
qed

lemma to_grid_bounds:
  assumes "0 < u" and "real_of_int A * u \<le> v" and "v \<le> real_of_int B * u"
  shows "real_of_int A * u \<le> to_grid u v" and "to_grid u v \<le> real_of_int B * u"
proof -
  have "real_of_int A \<le> v / u" using assms by (simp add: field_simps)
  then have "A \<le> round_even (v / u)" by (rule round_even_ge)
  then have "real_of_int A \<le> real_of_int (round_even (v / u))" by simp
  then show "real_of_int A * u \<le> to_grid u v"
    using assms(1) by (simp add: to_grid_def mult.commute)
  have "v / u \<le> real_of_int B" using assms by (simp add: field_simps)
  then have "round_even (v / u) \<le> B" by (rule round_even_le)
  then have "real_of_int (round_even (v / u)) \<le> real_of_int B" by simp
  then show "to_grid u v \<le> real_of_int B * u"
    using assms(1) by (simp add: to_grid_def mult.commute)
qed

lemma round_search_bounds:
  assumes "0 < b" and "0 \<le> v" and "v < 2 * b"
  shows "0 \<le> round_search n b v \<and> round_search n b v \<le> 2 * b"
  using assms
proof (induction n arbitrary: b)
  case 0
  have "real_of_int 0 * (2 * b / 2 ^ 52) \<le> to_grid (2 * b / 2 ^ 52) v"
    using 0 by (intro to_grid_bounds(1) [where B = "2 ^ 52"]) simp_all
  moreover have "to_grid (2 * b / 2 ^ 52) v \<le> real_of_int (2 ^ 52) * (2 * b / 2 ^ 52)"
    using 0 by (intro to_grid_bounds(2) [where A = 0]) simp_all
  ultimately show ?case by simp
next
  case (Suc n)
  show ?case
  proof (cases "b \<le> v")
    case True
    have "real_of_int 0 * (b / 2 ^ 52) \<le> to_grid (b / 2 ^ 52) v"
      using Suc.prems by (intro to_grid_bounds(1) [where B = "2 ^ 53"]) simp_all
    moreover have "to_grid (b / 2 ^ 52) v \<le> real_of_int (2 ^ 53) * (b / 2 ^ 52)"
      using Suc.prems by (intro to_grid_bounds(2) [where A = 0]) simp_all
    ultimately show ?thesis using True by simp
  next
    case False
    then have "0 \<le> round_search n (b / 2) v \<and> round_search n (b / 2) v \<le> 2 * (b / 2)"
      using Suc.prems by (intro Suc.IH) simp_all
    then show ?thesis using False Suc.prems(1) by simp
  qed
qed

lemma round_double_binade:
  assumes "0 \<le> v" and "2 ^ 1023 / 2 ^ j \<le> v" and "v < 2 * 2 ^ 1023 / 2 ^ j" and "j < 2046"
  shows "round_double v = to_grid (2 ^ 1023 / 2 ^ j / 2 ^ 52) v"
proof -
  have "round_search 2046 (2 ^ 1023) v = to_grid (2 ^ 1023 / 2 ^ j / 2 ^ 52) v"
    using assms(2,3,4) by (intro round_search_binade) simp_all
  then show ?thesis using assms(1) by (simp add: round_double_def)
qed

lemma round_double_2_4:
  assumes "2 \<le> v" and "v < 4"
  shows "round_double v = to_grid (1 / 2 ^ 51) v"
  using round_double_binade [of v 1022] assms by simp

lemma round_double_1_2:
  assumes "1 \<le> v" and "v < 2"
  shows "round_double v = to_grid (1 / 2 ^ 52) v"
  using round_double_binade [of v 1023] assms by simp

lemma round_double_half_1:
  assumes "1 / 2 \<le> v" and "v < 1"
  shows "round_double v = to_grid (1 / 2 ^ 53) v"
  using round_double_binade [of v 1024] assms by simp

lemma round_double_quarter_half:
  assumes "1 / 4 \<le> v" and "v < 1 / 2"
  shows "round_double v = to_grid (1 / 2 ^ 54) v"
  using round_double_binade [of v 1025] assms by simp

lemma round_double_small:
  assumes "0 \<le> v" and "v < 1 / 2"
  shows "0 \<le> round_double v" and "round_double v \<le> 1 / 2"
proof -
  have s: "round_search 2046 (2 ^ 1023) v = round_search (2046 - 1025) (2 ^ 1023 / 2 ^ 1025) v"
    using assms by (intro round_search_skip) simp_all
  have "0 \<le> round_search (2046 - 1025) (2 ^ 1023 / 2 ^ 1025) v
      \<and> round_search (2046 - 1025) (2 ^ 1023 / 2 ^ 1025) v \<le> 2 * (2 ^ 1023 / 2 ^ 1025)"
    using assms by (intro round_search_bounds) simp_all
  then show "0 \<le> round_double v" and "round_double v \<le> 1 / 2"
    using assms(1) s by (simp_all add: round_double_def)
qed

lemma round_double_third: "round_double (1 / 3) = 6004799503160661 / 2 ^ 54"
  by (simp add: round_double_quarter_half to_grid_def round_even_def Let_def)

lemma round_double_two_thirds: "round_double (2 / 3) = 6004799503160661 / 2 ^ 53"
  by (simp add: round_double_half_1 to_grid_def round_even_def Let_def)

lemma round_double_08: "round_double 0.8 = 3602879701896397 / 2 ^ 52"
  by (simp add: round_double_half_1 to_grid_def round_even_def Let_def)

lemma round_double_06: "round_double 0.6 = 5404319552844595 / 2 ^ 53"
  by (simp add: round_double_half_1 to_grid_def round_even_def Let_def)

lemma floor_of_grid:
  assumes "0 < u" and "real_of_int m \<le> u * real_of_int k" and "u * real_of_int k < real_of_int m + 1"
  shows "\<lfloor>u * real_of_int k\<rfloor> = m"
  using assms by (simp add: floor_eq_iff)

lemma real_of_int_less: "k < m \<Longrightarrow> real_of_int k < real_of_int m"
  by simp

lemma real_of_int_le: "k \<le> m \<Longrightarrow> real_of_int k \<le> real_of_int m"
  by simp

lemma lane_of_roll:
  assumes "0 \<le> r" and "r \<le> 1 - 1 / 2 ^ 53"
  shows "\<lfloor>round_double (r * 3)\<rfloor> =
           (if r < 6004799503160661 / 2 ^ 54 then 0
            else if r < 6004799503160661 / 2 ^ 53 then 1 else 2)"
proof -
  consider (a) "r * 3 < 1 / 2" | (b) "1 / 2 \<le> r * 3" "r * 3 < 1"
    | (c) "1 \<le> r * 3" "r * 3 < 2" | (d) "2 \<le> r * 3"
    by linarith
  then show ?thesis
  proof cases
    case a
    have p0: "0 \<le> r * 3" using assms(1) by simp
    have "0 \<le> round_double (r * 3)" using p0 a by (rule round_double_small(1))
    moreover have "round_double (r * 3) \<le> 1 / 2" using p0 a by (rule round_double_small(2))
    ultimately have "0 \<le> round_double (r * 3)" "round_double (r * 3) < 1" by simp_all
    then have "\<lfloor>round_double (r * 3)\<rfloor> = 0" by (simp add: floor_eq_iff)
    moreover have "r < 6004799503160661 / 2 ^ 54" using a by simp
    ultimately show ?thesis by simp
  next
    case b
    define k where "k = round_even (r * 3 / (1 / 2 ^ 53))"
    have rd: "round_double (r * 3) = (1 / 2 ^ 53) * real_of_int k"
      using b by (simp add: round_double_half_1 to_grid_def k_def)
    have k0: "0 \<le> k" unfolding k_def using assms(1) by (intro round_even_ge) simp
    have k1: "k \<le> 2 ^ 53" unfolding k_def using b by (intro round_even_le) simp
    have kk: "k < 2 ^ 53 \<longleftrightarrow> r < 6004799503160661 / 2 ^ 54"
      unfolding k_def using round_even_less_even [of "2 ^ 53" "r * 3 / (1 / 2 ^ 53)"] by (simp add: mult.commute)
    show ?thesis
    proof (cases "k < 2 ^ 53")
      case True
      then have "real_of_int k < real_of_int (2 ^ 53)" by (rule real_of_int_less)
      then have "real_of_int k < 2 ^ 53" by simp
      moreover have "0 \<le> real_of_int k" using k0 by simp
      ultimately have "\<lfloor>(1 / 2 ^ 53) * real_of_int k\<rfloor> = 0"
        by (intro floor_of_grid) simp_all
      then have "\<lfloor>round_double (r * 3)\<rfloor> = 0" by (simp only: rd)
      then show ?thesis using True kk by simp
    next
      case False
      then have "k = 2 ^ 53" using k1 by simp
      then have "round_double (r * 3) = 1" using rd by simp
      moreover have "r < 6004799503160661 / 2 ^ 53" using b by simp
      ultimately show ?thesis using False kk by simp
    qed
  next
    case c
    define k where "k = round_even (r * 3 / (1 / 2 ^ 52))"
    have rd: "round_double (r * 3) = (1 / 2 ^ 52) * real_of_int k"
      using c by (simp add: round_double_1_2 to_grid_def k_def)
    have k0: "2 ^ 52 \<le> k" unfolding k_def using c by (intro round_even_ge) simp
    have k1: "k \<le> 2 ^ 53" unfolding k_def using c by (intro round_even_le) simp
    have kk: "k < 2 ^ 53 \<longleftrightarrow> r < 6004799503160661 / 2 ^ 53"
      unfolding k_def using round_even_less_even [of "2 ^ 53" "r * 3 / (1 / 2 ^ 52)"] by (simp add: mult.commute)
    have lo: "\<not> r < 6004799503160661 / 2 ^ 54" using c by simp
    show ?thesis
    proof (cases "k < 2 ^ 53")
      case True
      then have "real_of_int k < real_of_int (2 ^ 53)" by (rule real_of_int_less)
      then have "real_of_int k < 2 ^ 53" by simp
      moreover have "2 ^ 52 \<le> real_of_int k" using real_of_int_le [OF k0] by simp
      ultimately have "\<lfloor>(1 / 2 ^ 52) * real_of_int k\<rfloor> = 1"
        by (intro floor_of_grid) simp_all
      then have "\<lfloor>round_double (r * 3)\<rfloor> = 1" by (simp only: rd)
      then show ?thesis using True kk lo by simp
    next
      case False
      then have "k = 2 ^ 53" using k1 by simp
      then have "round_double (r * 3) = 2" using rd by simp
      then show ?thesis using False kk lo by simp
    qed
  next
    case d
    have lt: "r * 3 < 4" using assms(2) by simp
    define k where "k = round_even (r * 3 / (1 / 2 ^ 51))"
    have rd: "round_double (r * 3) = (1 / 2 ^ 51) * real_of_int k"
      using d lt by (simp add: round_double_2_4 to_grid_def k_def)
    have k0: "2 ^ 52 \<le> k" unfolding k_def using d by (intro round_even_ge) simp
    have "r * 3 / (1 / 2 ^ 51) < real_of_int (3 * 2 ^ 51) - 1 / 2"
      using assms(2) by simp
    then have k1: "k < 3 * 2 ^ 51"
      unfolding k_def using round_even_less_even [of "3 * 2 ^ 51" "r * 3 / (1 / 2 ^ 51)"] by simp
    have "real_of_int k < 3 * 2 ^ 51" using real_of_int_less [OF k1] by simp
    moreover have "2 ^ 52 \<le> real_of_int k" using real_of_int_le [OF k0] by simp
    ultimately have "\<lfloor>(1 / 2 ^ 51) * real_of_int k\<rfloor> = 2"
      by (intro floor_of_grid) simp_all
    then have "\<lfloor>round_double (r * 3)\<rfloor> = 2" by (simp only: rd)
    moreover have "\<not> r < 6004799503160661 / 2 ^ 53" using d by simp
    moreover have "\<not> r < 6004799503160661 / 2 ^ 54" using d by simp
    ultimately show ?thesis by simp
  qed
qed

lemma double_below_one:
  assumes "round_double r = r" and "0 \<le> r" and "r < 1"
  shows "r \<le> 1 - 1 / 2 ^ 53"
proof (cases "r < 1 / 2")
  case True
  then show ?thesis by simp
next
  case False
  define k where "k = round_even (r / (1 / 2 ^ 53))"
  have rd: "r = (1 / 2 ^ 53) * real_of_int k"
    using False assms by (simp add: round_double_half_1 to_grid_def k_def)
  then have "real_of_int k < 2 ^ 53" using assms(3) by simp
  then have "real_of_int k < real_of_int (2 ^ 53)" by simp
  then have "k < 2 ^ 53" by (simp only: of_int_less_iff)
  then have "k \<le> 2 ^ 53 - 1" by simp
  then have "real_of_int k \<le> real_of_int (2 ^ 53 - 1)" by (rule real_of_int_le)
  then have "real_of_int k \<le> 2 ^ 53 - 1" by simp
  then show ?thesis using rd by simp
qed

lemma is_double_examples:
  "is_double (6004799503160661 / 2 ^ 53)" "is_double (6004799503160661 / 2 ^ 54)"
  "is_double (1 / 2)"
  by (simp_all add: is_double_def round_double_half_1 round_double_quarter_half to_grid_def
      round_even_def Let_def)

lemma round_double_literals:
  "round_double (4 / 5) = 3602879701896397 / 2 ^ 52"
  "round_double (3 / 5) = 5404319552844595 / 2 ^ 53"
  using round_double_08 round_double_06 by simp_all

lemma round_double_three_halves: "\<lfloor>round_double (3 / 2)\<rfloor> = 1"
  by (simp add: round_double_1_2 to_grid_def round_even_def Let_def)

subsection \<open>Stopping and collisions\<close>

lemma stop_simps:
  "score (stop g) = score g" "level (stop g) = level g" "timeLimit (stop g) = timeLimit g"
  "isGameActive (stop g) = False" "basketPosition (stop g) = basketPosition g"
  "items (stop g) = items g" "spawnTimer (stop g) = spawnTimer g" "lanes (stop g) = lanes g"
  "spawnInterval (stop g) = spawnInterval g" "dropSpeed (stop g) = dropSpeed g"
  "onGameEnd (stop g) = onGameEnd g" "startTime (stop g) = startTime g"
  "endCalls (stop g) = endCalls g @ (case onGameEnd g of None \<Rightarrow> [] | Some cb \<Rightarrow> [(score g, level g)])"
  by (simp_all add: stop_def Let_def split: option.splits)

lemma handleCollision_frame:
  "level (snd (handleCollision it g)) = level g"
  "timeLimit (snd (handleCollision it g)) = timeLimit g"
  "basketPosition (snd (handleCollision it g)) = basketPosition g"
  "items (snd (handleCollision it g)) = items g"
  "spawnTimer (snd (handleCollision it g)) = spawnTimer g"
  "lanes (snd (handleCollision it g)) = lanes g"
  "spawnInterval (snd (handleCollision it g)) = spawnInterval g"
  "dropSpeed (snd (handleCollision it g)) = dropSpeed g"
  "onGameEnd (snd (handleCollision it g)) = onGameEnd g"
  "startTime (snd (handleCollision it g)) = startTime g"
  by (simp_all add: handleCollision_def Let_def stop_simps)

lemma handleCollision_item:
  "fst (handleCollision it g) = it\<lparr> active := False \<rparr>"
  by (simp add: handleCollision_def Let_def)

lemma handleCollision_score:
  "score (snd (handleCollision it g)) = score g + points it"
  by (simp add: handleCollision_def Let_def stop_simps points_def)

lemma handleCollision_active:
  "isGameActive (snd (handleCollision it g)) = (isGameActive g \<and> type it \<noteq> ''bomb'')"
  by (simp add: handleCollision_def Let_def stop_simps)

lemma handleCollision_calls:
  "endCalls (snd (handleCollision it g)) =
     endCalls g @ (if type it = ''bomb'' \<and> onGameEnd g \<noteq> None then [(score g, level g)] else [])"
  by (simp add: handleCollision_def Let_def stop_simps split: option.splits)

lemma body_item:
  "fst (updateItems_body sp it g) =
     (if \<not> active it then it
      else if collides sp (basketPosition g) it \<or> leaves_field sp it
           then (advance sp it)\<lparr> active := False \<rparr>
           else advance sp it)"
  by (auto simp add: updateItems_body_def Let_def collides_def leaves_field_def advance_def
      handleCollision_def split: prod.splits)

lemma body_engine:
  "snd (updateItems_body sp it g) =
     (if collides sp (basketPosition g) it then snd (handleCollision (advance sp it) g) else g)"
  by (auto simp add: updateItems_body_def Let_def collides_def advance_def split: prod.splits)

lemma advance_simps:
  "type (advance sp it) = type it" "lane (advance sp it) = lane it"
  "active (advance sp it) = active it" "y (advance sp it) = y it + sp" "x (advance sp it) = x it"
  "points (advance sp it) = points it"
  by (simp_all add: advance_def points_def)

lemma body_frame:
  "level (snd (updateItems_body sp it g)) = level g"
  "timeLimit (snd (updateItems_body sp it g)) = timeLimit g"
  "basketPosition (snd (updateItems_body sp it g)) = basketPosition g"
  "items (snd (updateItems_body sp it g)) = items g"
  "spawnTimer (snd (updateItems_body sp it g)) = spawnTimer g"
  "lanes (snd (updateItems_body sp it g)) = lanes g"
  "spawnInterval (snd (updateItems_body sp it g)) = spawnInterval g"
  "dropSpeed (snd (updateItems_body sp it g)) = dropSpeed g"
  "onGameEnd (snd (updateItems_body sp it g)) = onGameEnd g"
  "startTime (snd (updateItems_body sp it g)) = startTime g"
  by (simp_all add: body_engine handleCollision_frame)

lemma body_score:
  "score (snd (updateItems_body sp it g)) =
     score g + (if collides sp (basketPosition g) it then points it else 0)"
  by (simp add: body_engine handleCollision_score advance_simps)

lemma body_active:
  "isGameActive (snd (updateItems_body sp it g)) =
     (isGameActive g \<and> \<not> bomb_hit sp (basketPosition g) it)"
  by (simp add: body_engine handleCollision_active advance_simps bomb_hit_def)


lemma loop_Cons:
  "updateItems_loop sp (it # its) g =
     (fst (updateItems_body sp it g) # fst (updateItems_loop sp its (snd (updateItems_body sp it g))),
      snd (updateItems_loop sp its (snd (updateItems_body sp it g))))"
  by (simp add: Let_def split: prod.splits)

lemma loop_frame:
  "level (snd (updateItems_loop sp its g)) = level g \<and>
   timeLimit (snd (updateItems_loop sp its g)) = timeLimit g \<and>
   basketPosition (snd (updateItems_loop sp its g)) = basketPosition g \<and>
   items (snd (updateItems_loop sp its g)) = items g \<and>
   spawnTimer (snd (updateItems_loop sp its g)) = spawnTimer g \<and>
   lanes (snd (updateItems_loop sp its g)) = lanes g \<and>
   spawnInterval (snd (updateItems_loop sp its g)) = spawnInterval g \<and>
   dropSpeed (snd (updateItems_loop sp its g)) = dropSpeed g \<and>
   onGameEnd (snd (updateItems_loop sp its g)) = onGameEnd g \<and>
   startTime (snd (updateItems_loop sp its g)) = startTime g"
proof (induction its arbitrary: g)
  case Nil
  show ?case by simp
next
  case (Cons it its)
  show ?case
    unfolding loop_Cons snd_conv
    using Cons.IH [of "snd (updateItems_body sp it g)"]
    by (simp add: body_frame)
qed

lemma loop_items:
  "fst (updateItems_loop sp its g) =
     map (\<lambda>it. if \<not> active it then it
                else if collides sp (basketPosition g) it \<or> leaves_field sp it
                     then (advance sp it)\<lparr> active := False \<rparr>
                     else advance sp it) its"
proof (induction its arbitrary: g)
  case Nil
  show ?case by simp
next
  case (Cons it its)
  show ?case
    unfolding loop_Cons fst_conv
    using Cons.IH [of "snd (updateItems_body sp it g)"]
    by (simp add: body_frame body_item)
qed

lemma loop_score:
  "score (snd (updateItems_loop sp its g)) =
     score g + sum_list (map points (filter (collides sp (basketPosition g)) its))"
proof (induction its arbitrary: g)
  case Nil
  show ?case by simp
next
  case (Cons it its)
  show ?case
    unfolding loop_Cons snd_conv
    using Cons.IH [of "snd (updateItems_body sp it g)"]
    by (simp add: body_frame body_score)
qed

lemma loop_active:
  "isGameActive (snd (updateItems_loop sp its g)) =
     (isGameActive g \<and> filter (bomb_hit sp (basketPosition g)) its = [])"
proof (induction its arbitrary: g)
  case Nil
  show ?case by simp
next
  case (Cons it its)
  show ?case
    unfolding loop_Cons snd_conv
    using Cons.IH [of "snd (updateItems_body sp it g)"]
    by (simp add: body_frame body_active)
qed


lemma updateItems_items:
  "items (updateItems g) =
     map (advance (speed_of g)) (filter (survives (speed_of g) (basketPosition g)) (items g))"
proof -
  have "filter active (map (\<lambda>it. if \<not> active it then it
                else if collides sp bp it \<or> leaves_field sp it
                     then (advance sp it)\<lparr> active := False \<rparr>
                     else advance sp it) its) =
        map (advance sp) (filter (survives sp bp) its)" for sp bp its
    by (induction its) (auto simp add: survives_def advance_simps)
  then show ?thesis
    by (simp add: updateItems_def Let_def split_beta loop_items speed_of_def)
qed

lemma updateItems_score:
  "score (updateItems g) =
     score g + sum_list (map points (filter (collides (speed_of g) (basketPosition g)) (items g)))"
  by (simp add: updateItems_def Let_def split_beta loop_score speed_of_def)

lemma updateItems_active:
  "isGameActive (updateItems g) =
     (isGameActive g \<and> filter (bomb_hit (speed_of g) (basketPosition g)) (items g) = [])"
  by (simp add: updateItems_def Let_def split_beta loop_active speed_of_def)


lemma updateItems_frame:
  "level (updateItems g) = level g"
  "timeLimit (updateItems g) = timeLimit g"
  "basketPosition (updateItems g) = basketPosition g"
  "spawnTimer (updateItems g) = spawnTimer g"
  "lanes (updateItems g) = lanes g"
  "spawnInterval (updateItems g) = spawnInterval g"
  "dropSpeed (updateItems g) = dropSpeed g"
  "onGameEnd (updateItems g) = onGameEnd g"
  "startTime (updateItems g) = startTime g"
  by (simp_all add: updateItems_def Let_def split_beta loop_frame)

subsection \<open>The per-frame update\<close>

lemma spawnItem_frame:
  "level (spawnItem r1 r2 g) = level g" "score (spawnItem r1 r2 g) = score g"
  "basketPosition (spawnItem r1 r2 g) = basketPosition g"
  "onGameEnd (spawnItem r1 r2 g) = onGameEnd g" "endCalls (spawnItem r1 r2 g) = endCalls g"
  "isGameActive (spawnItem r1 r2 g) = isGameActive g"
  "timeLimit (spawnItem r1 r2 g) = timeLimit g" "startTime (spawnItem r1 r2 g) = startTime g"
  by (simp_all add: spawnItem_def Let_def)

lemma spawnItem_items:
  "\<exists>n. items (spawnItem r1 r2 g) = items g @ [n] \<and> y n = - 50 \<and> active n"
  by (simp add: spawnItem_def Let_def)


lemma update_timeout:
  assumes "isGameActive g" and "startTime g = Some t0"
    and "timeLimit g - real_of_int (now - t0) / 1000 \<le> 0"
  shows "update now r1 r2 g =
           stop (g\<lparr> level := (if real_of_int (now - t0) / 1000 < 20 then 1
                               else if real_of_int (now - t0) / 1000 < 40 then 2 else 3) \<rparr>)"
  using assms by (simp add: update_def elapsed_seconds_def Let_def)

lemma update_running:
  assumes "isGameActive g" and "startTime g = Some t0"
    and "\<not> timeLimit g - real_of_int (now - t0) / 1000 \<le> 0"
  shows "\<exists>g3 extra. update now r1 r2 g = updateItems g3
           \<and> level g3 = (if real_of_int (now - t0) / 1000 < 20 then 1
                          else if real_of_int (now - t0) / 1000 < 40 then 2 else 3)
           \<and> basketPosition g3 = basketPosition g \<and> score g3 = score g
           \<and> onGameEnd g3 = onGameEnd g \<and> endCalls g3 = endCalls g \<and> isGameActive g3
           \<and> items g3 = items g @ extra \<and> (\<forall>n \<in> set extra. y n = - 50 \<and> active n)"
proof -
  define g1 where "g1 = g\<lparr> level := (if real_of_int (now - t0) / 1000 < 20 then 1
                          else if real_of_int (now - t0) / 1000 < 40 then 2 else 3) \<rparr>"
  define g2 where "g2 = g1\<lparr> spawnTimer := spawnTimer g1 + 1 \<rparr>"
  define g3 where "g3 = (if spawnTimer g2 > max 20 (60 - (level g2 * 10))
                       then (spawnItem r1 r2 g2)\<lparr> spawnTimer := 0 \<rparr> else g2)"
  have u: "update now r1 r2 g = updateItems g3"
    using assms by (auto simp add: update_def elapsed_seconds_def Let_def g1_def g2_def g3_def)
  obtain n where n: "items (spawnItem r1 r2 g2) = items g2 @ [n]" "y n = - 50" "active n"
    using spawnItem_items by blast
  have fr: "level g3 = level g1" "basketPosition g3 = basketPosition g" "score g3 = score g"
       "onGameEnd g3 = onGameEnd g" "endCalls g3 = endCalls g" "isGameActive g3"
    using assms(1) by (simp_all add: g3_def g2_def g1_def spawnItem_frame)
  have "items g3 = items g @ [] \<or> items g3 = items g @ [n]"
    using n(1) by (simp add: g3_def g2_def g1_def)
  then have "\<exists>extra. items g3 = items g @ extra \<and> (\<forall>n \<in> set extra. y n = - 50 \<and> active n)"
    using n(2,3) by (metis empty_iff empty_set set_ConsD)
  with u fr show ?thesis
    by (auto simp add: g1_def)
qed

lemma spawned_not_caught:
  assumes "y n = - 50" and "sp \<le> 9"
  shows "\<not> collides sp bp n" and "\<not> bomb_hit sp bp n"
  using assms by (simp_all add: collides_def bomb_hit_def)

lemma advance_inj:
  assumes "advance sp a = advance sp b"
  shows "a = b"
proof -
  have "y a + sp = y b + sp" "x a = x b" "lane a = lane b" "type a = type b"
      "active a = active b"
    using assms by (metis advance_simps)+
  then show ?thesis by simp
qed

lemma pose_distinct:
  "pose_left \<noteq> pose_center" "pose_left \<noteq> pose_right" "pose_center \<noteq> pose_right"
  by (simp_all add: pose_left_def pose_center_def pose_right_def)

lemma ceiling_max0: "\<lceil>max 0 (z::real)\<rceil> = max 0 \<lceil>z\<rceil>"
proof (cases "z \<le> 0")
  case True
  then have c: "\<lceil>z\<rceil> \<le> 0" by (simp add: ceiling_le_iff)
  have "max 0 z = 0" using True by (rule max_absorb1)
  moreover have "max 0 \<lceil>z\<rceil> = 0" using c by (rule max_absorb1)
  ultimately show ?thesis by simp
next
  case False
  then have c: "0 \<le> \<lceil>z\<rceil>" by (simp add: less_ceiling_iff less_imp_le)
  have "max 0 z = z" using False by (simp add: max_absorb2)
  moreover have "max 0 \<lceil>z\<rceil> = \<lceil>z\<rceil>" using c by (rule max_absorb2)
  ultimately show ?thesis by simp
qed

lemma ceiling_int_minus: "\<lceil>real_of_int T - e\<rceil> = T - \<lfloor>e\<rfloor>"
  by (simp add: ceiling_def)

subsection \<open>Spawned items, band predicates and the fall\<close>

lemma collides_unfold:
  "collides sp bp = (\<lambda>i. active i \<and> 500 < y i + sp \<and> y i + sp < 560 \<and> lane i = bp)"
  by (rule ext) (simp add: collides_def)


lemma speed_of_le:
  "level g \<in> {1, 2, 3} \<Longrightarrow> speed_of g \<le> 9"
  by (auto simp add: speed_of_def)

lemma filter_spawned:
  assumes "\<forall>n \<in> set extra. y n = - 50 \<and> active n" and "sp \<le> 9"
  shows "filter (collides sp bp) extra = []"
    and "filter (bomb_hit sp bp) extra = []"
  using assms by (simp_all add: spawned_not_caught)

lemma fall_snoc: "fall y0 (ls @ [l]) = fall y0 ls + real_of_int (3 + (l * 2))"
  by (induction ls arbitrary: y0) simp_all

lemma fall_lower:
  assumes "\<forall>i. lv i \<in> {1, 2, 3}"
  shows "y0 + 5 * real n \<le> fall y0 (map lv [0..<n])"
proof (induction n)
  case 0
  show ?case by simp
next
  case (Suc n)
  have "lv n \<in> {1, 2, 3}" using assms by blast
  then have "1 \<le> lv n" by auto
  then show ?case
    using Suc by (simp add: fall_snoc)
qed

lemma fall_step_upper:
  assumes "\<forall>i. lv i \<in> {1, 2, 3}"
  shows "fall y0 (map lv [0..<Suc n]) \<le> fall y0 (map lv [0..<n]) + 9"
proof -
  have "lv n \<in> {1, 2, 3}" using assms by blast
  then have "lv n \<le> 3" by auto
  then show ?thesis by (simp add: fall_snoc)
qed

subsection \<open>Runs of passes\<close>

lemma tick_at_items:
  "items (tick_at l bp g) =
     map (advance (real_of_int (3 + (l * 2))))
       (filter (survives (real_of_int (3 + (l * 2))) bp) (items g))"
  by (simp add: tick_at_def updateItems_items speed_of_def)

lemma tick_at_score:
  "score (tick_at l bp g) =
     score g + sum_list (map points (filter (collides (real_of_int (3 + (l * 2))) bp) (items g)))"
  by (simp add: tick_at_def updateItems_score speed_of_def)

lemma tick_at_active:
  "isGameActive (tick_at l bp g) =
     (isGameActive g \<and> filter (bomb_hit (real_of_int (3 + (l * 2))) bp) (items g) = [])"
  by (simp add: tick_at_def updateItems_active speed_of_def)

lemma points_nonneg: "0 \<le> points i"
  by (simp add: points_def)

lemma points_le_sum:
  assumes "i \<in> set its"
  shows "points i \<le> sum_list (map points its)"
  using assms
proof (induction its)
  case Nil
  then show ?case by simp
next
  case (Cons j its)
  have "0 \<le> sum_list (map points its)"
    by (rule sum_list_nonneg) (auto simp add: points_nonneg)
  with Cons points_nonneg [of j] show ?case by auto
qed

lemma tick_at_keeps:
  assumes "i \<in> set (items g)" and "active i" and "y i + real_of_int (3 + (l * 2)) \<le> 500"
  shows "advance (real_of_int (3 + (l * 2))) i \<in> set (items (tick_at l bp g))"
  using assms by (simp add: tick_at_items survives_def collides_def leaves_field_def)

lemma tick_at_decides:
  assumes "i \<in> set (items g)" and "active i"
    and "500 < y i + real_of_int (3 + (l * 2))" and "y i + real_of_int (3 + (l * 2)) < 560"
  shows "advance (real_of_int (3 + (l * 2))) i \<in> set (items (tick_at l bp g)) \<longleftrightarrow> lane i \<noteq> bp"
proof
  assume "advance (real_of_int (3 + (l * 2))) i \<in> set (items (tick_at l bp g))"
  then obtain j where "survives (real_of_int (3 + (l * 2))) bp j"
      "advance (real_of_int (3 + (l * 2))) i = advance (real_of_int (3 + (l * 2))) j"
    by (auto simp add: tick_at_items)
  then have "survives (real_of_int (3 + (l * 2))) bp i"
    using advance_inj by blast
  then show "lane i \<noteq> bp"
    using assms by (simp add: survives_def collides_def)
next
  assume "lane i \<noteq> bp"
  then show "advance (real_of_int (3 + (l * 2))) i \<in> set (items (tick_at l bp g))"
    using assms by (simp add: tick_at_items survives_def collides_def leaves_field_def)
qed

lemma tick_at_resolves:
  assumes "i \<in> set (items g)" and "active i"
    and "500 < y i + real_of_int (3 + (l * 2))" and "y i + real_of_int (3 + (l * 2)) < 560"
    and "lane i = bp"
  shows "score g + points i \<le> score (tick_at l bp g)"
    and "type i = ''bomb'' \<Longrightarrow> \<not> isGameActive (tick_at l bp g)"
proof -
  have c: "collides (real_of_int (3 + (l * 2))) bp i"
    using assms by (simp add: collides_def)
  then have "i \<in> set (filter (collides (real_of_int (3 + (l * 2))) bp) (items g))"
    using assms(1) by simp
  then have "points i \<le> sum_list (map points
      (filter (collides (real_of_int (3 + (l * 2))) bp) (items g)))"
    by (rule points_le_sum)
  then show "score g + points i \<le> score (tick_at l bp g)"
    by (simp add: tick_at_score)
  assume "type i = ''bomb''"
  with c have "i \<in> set (filter (bomb_hit (real_of_int (3 + (l * 2))) bp) (items g))"
    using assms(1) by (simp add: bomb_hit_def)
  then have "filter (bomb_hit (real_of_int (3 + (l * 2))) bp) (items g) \<noteq> []"
    by (metis empty_iff empty_set)
  then show "\<not> isGameActive (tick_at l bp g)"
    by (simp add: tick_at_active)
qed

lemma fall_Suc:
  "fall y0 (map lv [0..<Suc n]) = fall y0 (map lv [0..<n]) + real_of_int (3 + (lv n * 2))"
  by (simp add: fall_snoc)

lemma fall_reaches_band:
  assumes "\<forall>i. lv i \<in> {1, 2, 3}"
  shows "\<exists>n. (\<forall>k\<le>n. fall (- 50) (map lv [0..<k]) \<le> 500)
           \<and> 500 < fall (- 50) (map lv [0..<Suc n])
           \<and> fall (- 50) (map lv [0..<Suc n]) < 560"
proof -
  define P where "P n = (500 < fall (- 50) (map lv [0..<n]))" for n
  have "- 50 + 5 * real 111 \<le> fall (- 50) (map lv [0..<111])"
    using assms by (rule fall_lower)
  then have ex: "P 111" by (simp add: P_def)
  define n0 where "n0 = (LEAST n. P n)"
  have p0: "P n0" unfolding n0_def using ex by (rule LeastI)
  have below: "\<not> P m" if "m < n0" for m
    using that unfolding n0_def by (rule not_less_Least)
  have "n0 \<noteq> 0"
  proof
    assume "n0 = 0"
    with p0 show False by (simp add: P_def)
  qed
  then obtain m where m: "n0 = Suc m" by (cases n0) auto
  have "\<not> P m" using below m by simp
  then have "fall (- 50) (map lv [0..<m]) \<le> 500" by (simp add: P_def)
  moreover have "fall (- 50) (map lv [0..<Suc m]) \<le> fall (- 50) (map lv [0..<m]) + 9"
    using assms by (rule fall_step_upper)
  ultimately have "fall (- 50) (map lv [0..<Suc m]) < 560" by simp
  moreover have "500 < fall (- 50) (map lv [0..<Suc m])" using p0 m by (simp add: P_def)
  moreover have "\<forall>k\<le>m. fall (- 50) (map lv [0..<k]) \<le> 500"
    using below m by (auto simp add: P_def not_less less_Suc_eq_le)
  ultimately show ?thesis by blast
qed

section \<open>The claims\<close>




text \<open>
  Claim C2, as amended. In a tick of an active round that has not reached its time limit,
  the collision of an active item is resolved exactly when its advanced position lies
  strictly between 500 and 560 and its lane is the basket's: the advanced item is kept
  exactly when it is outside that open band or in another lane, and has not passed 650;
  and the score grows by the points of exactly the items in the open band in the basket's
  lane. Here \<open>sp\<close> is the speed of the tick, \<open>3 + level * 2\<close> at the level the tick sets.
\<close>

theorem catch_band:
  assumes "isGameActive g" and "startTime g = Some t0"
    and "\<not> timeLimit g - real_of_int (now - t0) / 1000 \<le> 0"
    and "it \<in> set (items g)" and "active it"
    and "sp = speed_of (update now r1 r2 g)"
  shows "(it\<lparr> y := y it + sp \<rparr> \<in> set (items (update now r1 r2 g))
            \<longleftrightarrow> \<not> (500 < y it + sp \<and> y it + sp < 560 \<and> lane it = basketPosition g)
                \<and> y it + sp \<le> 650)
       \<and> score (update now r1 r2 g) =
           score g + sum_list (map points
             (filter (\<lambda>i. active i \<and> 500 < y i + sp \<and> y i + sp < 560 \<and> lane i = basketPosition g)
                (items g)))"
proof -
  from update_running [OF assms(1,2,3), of r1 r2]
  obtain g3 extra where u: "update now r1 r2 g = updateItems g3"
    and l: "level g3 = (if real_of_int (now - t0) / 1000 < 20 then 1
                     else if real_of_int (now - t0) / 1000 < 40 then 2 else 3)"
    and b: "basketPosition g3 = basketPosition g" and s: "score g3 = score g"
    and i: "items g3 = items g @ extra" and e: "\<forall>n \<in> set extra. y n = - 50 \<and> active n"
    by blast
  have sp: "sp = speed_of g3"
    by (simp add: assms(6) u speed_of_def updateItems_frame)
  have "level g3 \<in> {1, 2, 3}" using l by simp
  then have sp9: "sp \<le> 9" unfolding sp by (rule speed_of_le)
  have mem: "advance sp it \<in> set (items (updateItems g3)) \<longleftrightarrow> survives sp (basketPosition g) it"
  proof
    assume "advance sp it \<in> set (items (updateItems g3))"
    then obtain j where "j \<in> set (items g3)" "survives sp (basketPosition g) j"
        "advance sp it = advance sp j"
      by (auto simp add: updateItems_items sp [symmetric] b)
    then show "survives sp (basketPosition g) it"
      using advance_inj by blast
  next
    assume "survives sp (basketPosition g) it"
    then show "advance sp it \<in> set (items (updateItems g3))"
      using assms(4) by (simp add: updateItems_items sp [symmetric] b i)
  qed
  have 1: "(it\<lparr> y := y it + sp \<rparr> \<in> set (items (update now r1 r2 g))
            \<longleftrightarrow> \<not> (500 < y it + sp \<and> y it + sp < 560 \<and> lane it = basketPosition g)
                \<and> y it + sp \<le> 650)"
    using mem assms(5) unfolding u
    by (auto simp add: advance_def survives_def collides_def leaves_field_def)
  have 2: "score (update now r1 r2 g) =
           score g + sum_list (map points (filter (collides sp (basketPosition g)) (items g)))"
    unfolding u
    by (simp add: updateItems_score sp [symmetric] b s i filter_spawned(1) [OF e sp9])
  show ?thesis
    using 1 2 unfolding collides_unfold by simp
qed

text \<open>
  The claim as first stated includes 500 in the band. An apple that the tick moves from
  495 to exactly 500 in the basket's lane is not caught: it stays in play and the score
  stays 0.
\<close>

theorem catch_band_counterexample:
  "items (update 1000 0 0
      ((start 0 \<lparr>cfg_timeLimit = None\<rparr> constructor)
         \<lparr>items := [\<lparr>x = Some 300, y = 495, lane = 1, type = ''apple'', active = True\<rparr>]\<rparr>))
     = [\<lparr>x = Some 300, y = 500, lane = 1, type = ''apple'', active = True\<rparr>]
   \<and> score (update 1000 0 0
      ((start 0 \<lparr>cfg_timeLimit = None\<rparr> constructor)
         \<lparr>items := [\<lparr>x = Some 300, y = 495, lane = 1, type = ''apple'', active = True\<rparr>]\<rparr>)) = 0
   \<and> basketPosition ((start 0 \<lparr>cfg_timeLimit = None\<rparr> constructor)
         \<lparr>items := [\<lparr>x = Some 300, y = 495, lane = 1, type = ''apple'', active = True\<rparr>]\<rparr>) = 1"
  by (simp add: update_def elapsed_seconds_def start_def constructor_def Let_def
      updateItems_def updateItems_body_def)

theorem catch_band_witness:
  "\<lparr>x = Some 300, y = 501, lane = 1, type = ''apple'', active = True\<rparr> \<notin>
     set (items (update 1000 0 0
      ((start 0 \<lparr>cfg_timeLimit = None\<rparr> constructor)
         \<lparr>items := [\<lparr>x = Some 300, y = 496, lane = 1, type = ''apple'', active = True\<rparr>]\<rparr>)))
   \<and> score (update 1000 0 0
      ((start 0 \<lparr>cfg_timeLimit = None\<rparr> constructor)
         \<lparr>items := [\<lparr>x = Some 300, y = 496, lane = 1, type = ''apple'', active = True\<rparr>]\<rparr>)) = 100"
  using catch_band [of "(start 0 \<lparr>cfg_timeLimit = None\<rparr> constructor)
         \<lparr>items := [\<lparr>x = Some 300, y = 496, lane = 1, type = ''apple'', active = True\<rparr>]\<rparr>"
      0 1000 "\<lparr>x = Some 300, y = 496, lane = 1, type = ''apple'', active = True\<rparr>" 5 0 0]
  by (simp add: update_def elapsed_seconds_def start_def constructor_def Let_def
      updateItems_def updateItems_body_def speed_of_def handleCollision_def points_def)

text \<open>
  Claim C3. Resolving a collision with an apple adds exactly 100 to the score, with a
  grape exactly 200, and leaves the round running and the observer uncalled; with a bomb
  it leaves the score unchanged, makes the round inactive and, when an observer is
  registered, calls it once with the score and level held before the collision. In every
  case the item is marked inactive, so it is not among the items any later pass of
  \<^verbatim>\<open>updateItems\<close> keeps.
\<close>

theorem collision_resolution:
  "(type it = ''apple'' \<longrightarrow>
      score (snd (handleCollision it g)) = score g + 100 \<and>
      isGameActive (snd (handleCollision it g)) = isGameActive g \<and>
      endCalls (snd (handleCollision it g)) = endCalls g)
   \<and> (type it = ''grape'' \<longrightarrow>
      score (snd (handleCollision it g)) = score g + 200 \<and>
      isGameActive (snd (handleCollision it g)) = isGameActive g \<and>
      endCalls (snd (handleCollision it g)) = endCalls g)
   \<and> (type it = ''bomb'' \<longrightarrow>
      score (snd (handleCollision it g)) = score g \<and>
      \<not> isGameActive (snd (handleCollision it g)) \<and>
      (onGameEnd g \<noteq> None \<longrightarrow>
         endCalls (snd (handleCollision it g)) = endCalls g @ [(score g, level g)]))
   \<and> \<not> active (fst (handleCollision it g))
   \<and> fst (handleCollision it g) \<notin> set (items (updateItems (g\<lparr> items := its \<rparr>)))"
proof -
  have a: "\<not> active (fst (handleCollision it g))"
    by (simp add: handleCollision_item)
  have "\<forall>i \<in> set (items (updateItems (g\<lparr> items := its \<rparr>))). active i"
    by (simp add: updateItems_items survives_def advance_simps)
  with a have b: "fst (handleCollision it g) \<notin> set (items (updateItems (g\<lparr> items := its \<rparr>)))"
    by blast
  show ?thesis
    using a b
    by (simp add: handleCollision_score handleCollision_active handleCollision_calls points_def)
qed

theorem collision_resolution_witness:
  "score (snd (handleCollision \<lparr>x = Some 300, y = 530, lane = 1, type = ''apple'', active = True\<rparr>
       ((start 0 \<lparr>cfg_timeLimit = None\<rparr> (setGameEndCallback (Some Callback) constructor))
          \<lparr>score := 300, level := 2\<rparr>))) = 400
   \<and> score (snd (handleCollision \<lparr>x = Some 300, y = 530, lane = 1, type = ''grape'', active = True\<rparr>
       ((start 0 \<lparr>cfg_timeLimit = None\<rparr> (setGameEndCallback (Some Callback) constructor))
          \<lparr>score := 300, level := 2\<rparr>))) = 500
   \<and> endCalls (snd (handleCollision \<lparr>x = Some 300, y = 530, lane = 1, type = ''bomb'', active = True\<rparr>
       ((start 0 \<lparr>cfg_timeLimit = None\<rparr> (setGameEndCallback (Some Callback) constructor))
          \<lparr>score := 300, level := 2\<rparr>))) = [(300, 2)]"
  using collision_resolution [of "\<lparr>x = Some 300, y = 530, lane = 1, type = ''apple'', active = True\<rparr>"
      "(start 0 \<lparr>cfg_timeLimit = None\<rparr> (setGameEndCallback (Some Callback) constructor))
          \<lparr>score := 300, level := 2\<rparr>" "[]"]
    collision_resolution [of "\<lparr>x = Some 300, y = 530, lane = 1, type = ''grape'', active = True\<rparr>"
      "(start 0 \<lparr>cfg_timeLimit = None\<rparr> (setGameEndCallback (Some Callback) constructor))
          \<lparr>score := 300, level := 2\<rparr>" "[]"]
    collision_resolution [of "\<lparr>x = Some 300, y = 530, lane = 1, type = ''bomb'', active = True\<rparr>"
      "(start 0 \<lparr>cfg_timeLimit = None\<rparr> (setGameEndCallback (Some Callback) constructor))
          \<lparr>score := 300, level := 2\<rparr>" "[]"]
  by (simp add: start_def setGameEndCallback_def constructor_def)

text \<open>
  Claim C4. A tick of an active round sets the level from the elapsed time \<open>e\<close> alone:
  1 when \<open>0 \<le> e < 20\<close>, 2 when \<open>20 \<le> e < 40\<close>, 3 when \<open>e \<ge> 40\<close>; this holds on the
  path that stops the round at the time limit as well as on the path that moves items.
\<close>

theorem level_from_elapsed:
  assumes "isGameActive g" and "startTime g = Some t0"
    and "e = real_of_int (now - t0) / 1000"
  shows "(0 \<le> e \<and> e < 20 \<longrightarrow> level (update now r1 r2 g) = 1)
       \<and> (20 \<le> e \<and> e < 40 \<longrightarrow> level (update now r1 r2 g) = 2)
       \<and> (40 \<le> e \<longrightarrow> level (update now r1 r2 g) = 3)"
proof (cases "timeLimit g - real_of_int (now - t0) / 1000 \<le> 0")
  case True
  show ?thesis
    unfolding update_timeout [OF assms(1,2) True] assms(3)
    by (simp add: stop_simps)
next
  case False
  from update_running [OF assms(1,2) False, of r1 r2]
  obtain g3 where "update now r1 r2 g = updateItems g3"
    and "level g3 = (if real_of_int (now - t0) / 1000 < 20 then 1
                     else if real_of_int (now - t0) / 1000 < 40 then 2 else 3)"
    by blast
  then show ?thesis
    unfolding assms(3) by (simp add: updateItems_frame)
qed

theorem level_from_elapsed_witness:
  "level (update 19990 0 0 (start 0 \<lparr>cfg_timeLimit = None\<rparr> constructor)) = 1
   \<and> level (update 20000 0 0 (start 0 \<lparr>cfg_timeLimit = None\<rparr> constructor)) = 2
   \<and> level (update 39990 0 0 (start 0 \<lparr>cfg_timeLimit = None\<rparr> constructor)) = 2
   \<and> level (update 40000 0 0 (start 0 \<lparr>cfg_timeLimit = None\<rparr> constructor)) = 3"
  using level_from_elapsed [of "start 0 \<lparr>cfg_timeLimit = None\<rparr> constructor" 0 "1999 / 100" 19990 0 0]
    level_from_elapsed [of "start 0 \<lparr>cfg_timeLimit = None\<rparr> constructor" 0 20 20000 0 0]
    level_from_elapsed [of "start 0 \<lparr>cfg_timeLimit = None\<rparr> constructor" 0 "3999 / 100" 39990 0 0]
    level_from_elapsed [of "start 0 \<lparr>cfg_timeLimit = None\<rparr> constructor" 0 40 40000 0 0]
  by (simp add: start_def constructor_def)

text \<open>
  Claim C5, as amended. The remaining time that \<^verbatim>\<open>render\<close> prints is
  \<open>max 0 (timeLimit - \<lfloor>e\<rfloor>)\<close>: the elapsed time is floored before it is subtracted. For an
  integer time limit this is \<open>max 0 (timeLimit - e)\<close> rounded up, not down, to whole
  seconds.
\<close>

theorem render_remaining:
  assumes "startTime g = Some t0" and "timeLimit g = real_of_int T"
    and "e = real_of_int (now - t0) / 1000"
  shows "timeText (render now g) = Some (max 0 (real_of_int T - real_of_int \<lfloor>e\<rfloor>))
       \<and> timeText (render now g) = Some (real_of_int \<lceil>max 0 (real_of_int T - e)\<rceil>)"
proof -
  have 1: "timeText (render now g) = Some (max 0 (real_of_int T - real_of_int \<lfloor>e\<rfloor>))"
    unfolding assms(3) using assms(1,2) by (simp add: render_def Let_def)
  have "real_of_int \<lceil>max 0 (real_of_int T - e)\<rceil> = max 0 (real_of_int T - real_of_int \<lfloor>e\<rfloor>)"
    unfolding ceiling_max0 ceiling_int_minus by (simp add: max_def)
  with 1 show ?thesis by simp
qed

text \<open>
  The claim as first stated floors the remaining time. Half a second into a round of 60
  seconds the code prints 60, and \<open>max 0 (60 - 0.5)\<close> floored is 59.
\<close>

theorem render_remaining_counterexample:
  "timeText (render 500 (start 0 \<lparr>cfg_timeLimit = Some 60\<rparr> constructor)) = Some 60
   \<and> real_of_int \<lfloor>max 0 (60 - real_of_int (500 - 0) / 1000)\<rfloor> = 59"
  by (simp add: render_def start_def constructor_def Let_def)

theorem render_remaining_witness:
  "timeText (render 500 (start 0 \<lparr>cfg_timeLimit = Some 60\<rparr> constructor))
     = Some (real_of_int \<lceil>max 0 (real_of_int 60 - 1 / 2)\<rceil>)"
  using render_remaining [of "start 0 \<lparr>cfg_timeLimit = Some 60\<rparr> constructor" 0 60 "1 / 2" 500]
  by (simp add: start_def constructor_def)

text \<open>
  Claim C6. For a double \<open>r1\<close> with \<open>0 \<le> r1 < 1\<close> and any \<open>r2\<close>, \<^verbatim>\<open>spawnItem\<close> appends
  one item at vertical position \<open>-50\<close>, active, in lane 0, 1 or 2: lane 0 below the double
  nearest to one third, lane 2 from the double nearest to two thirds on, lane 1 between
  them (three intervals that partition the unit interval at the doubles nearest to its
  thirds, which is how a uniform roll gives a uniform lane). The item is a bomb exactly
  when the level is at least 2 and \<open>r2\<close> exceeds the double written \<^verbatim>\<open>0.8\<close>, otherwise a
  grape exactly when \<open>r2\<close> exceeds the double written \<^verbatim>\<open>0.6\<close>, otherwise an apple; at
  level 1 it is never a bomb. The four doubles are given exactly.
\<close>

theorem spawnItem_result:
  assumes "is_double r1" and "0 \<le> r1" and "r1 < 1"
  shows "(\<exists>n. items (spawnItem r1 r2 g) = items g @ [n]
           \<and> y n = - 50 \<and> active n \<and> lane n \<in> {0, 1, 2}
           \<and> (lane n = 0 \<longleftrightarrow> r1 < round_double (1 / 3))
           \<and> (lane n = 1 \<longleftrightarrow> round_double (1 / 3) \<le> r1 \<and> r1 < round_double (2 / 3))
           \<and> (lane n = 2 \<longleftrightarrow> round_double (2 / 3) \<le> r1)
           \<and> (type n = ''bomb'' \<longleftrightarrow> level g \<ge> 2 \<and> r2 > round_double 0.8)
           \<and> (type n = ''grape'' \<longleftrightarrow>
                 \<not> (level g \<ge> 2 \<and> r2 > round_double 0.8) \<and> r2 > round_double 0.6)
           \<and> (type n = ''apple'' \<longleftrightarrow>
                 \<not> (level g \<ge> 2 \<and> r2 > round_double 0.8) \<and> \<not> r2 > round_double 0.6)
           \<and> (level g = 1 \<longrightarrow> type n \<noteq> ''bomb''))
       \<and> round_double (1 / 3) = 6004799503160661 / 2 ^ 54
       \<and> round_double (2 / 3) = 6004799503160661 / 2 ^ 53
       \<and> round_double 0.8 = 3602879701896397 / 2 ^ 52
       \<and> round_double 0.6 = 5404319552844595 / 2 ^ 53"
proof -
  have "round_double r1 = r1" using assms(1) by (simp add: is_double_def)
  then have "r1 \<le> 1 - 1 / 2 ^ 53" using assms(2,3) by (rule double_below_one)
  with assms(2) have f: "\<lfloor>round_double (r1 * 3)\<rfloor> =
           (if r1 < 6004799503160661 / 2 ^ 54 then 0
            else if r1 < 6004799503160661 / 2 ^ 53 then 1 else 2)"
    by (rule lane_of_roll)
  have lt: "(6004799503160661 :: real) / 2 ^ 54 < 6004799503160661 / 2 ^ 53" by simp
  have 1: "\<exists>n. items (spawnItem r1 r2 g) = items g @ [n]
           \<and> y n = - 50 \<and> active n \<and> lane n \<in> {0, 1, 2}
           \<and> (lane n = 0 \<longleftrightarrow> r1 < 6004799503160661 / 2 ^ 54)
           \<and> (lane n = 1 \<longleftrightarrow> 6004799503160661 / 2 ^ 54 \<le> r1 \<and> r1 < 6004799503160661 / 2 ^ 53)
           \<and> (lane n = 2 \<longleftrightarrow> 6004799503160661 / 2 ^ 53 \<le> r1)
           \<and> (type n = ''bomb'' \<longleftrightarrow> level g \<ge> 2 \<and> r2 > round_double 0.8)
           \<and> (type n = ''grape'' \<longleftrightarrow>
                 \<not> (level g \<ge> 2 \<and> r2 > round_double 0.8) \<and> r2 > round_double 0.6)
           \<and> (type n = ''apple'' \<longleftrightarrow>
                 \<not> (level g \<ge> 2 \<and> r2 > round_double 0.8) \<and> \<not> r2 > round_double 0.6)
           \<and> (level g = 1 \<longrightarrow> type n \<noteq> ''bomb'')"
    unfolding spawnItem_def Let_def f using lt by auto
  show ?thesis
    using 1 unfolding round_double_third round_double_two_thirds
    by (simp only: round_double_08 round_double_06 simp_thms)
qed

theorem spawnItem_result_witness:
  "(\<exists>n. items (spawnItem (6004799503160661 / 2 ^ 53) (3602879701896397 / 2 ^ 52)
            (constructor\<lparr>level := 2\<rparr>)) = [n]
        \<and> y n = - 50 \<and> active n \<and> lane n = 2 \<and> type n = ''grape'')
   \<and> (\<exists>n. items (spawnItem (6004799503160661 / 2 ^ 54) (9 / 10)
            (constructor\<lparr>level := 2\<rparr>)) = [n]
        \<and> y n = - 50 \<and> active n \<and> lane n = 1 \<and> type n = ''bomb'')"
proof -
  have i: "items (constructor\<lparr>level := 2\<rparr>) = []" "(2::int) \<le> level (constructor\<lparr>level := 2\<rparr>)"
    by (simp_all add: constructor_def)
  note a = spawnItem_result [OF is_double_examples(1), of "3602879701896397 / 2 ^ 52"
      "constructor\<lparr>level := 2\<rparr>"]
  note b = spawnItem_result [OF is_double_examples(2), of "9 / 10" "constructor\<lparr>level := 2\<rparr>"]
  have c: "round_double (1 / 3) = 6004799503160661 / 2 ^ 54"
      "round_double (2 / 3) = 6004799503160661 / 2 ^ 53"
      "round_double 0.8 = 3602879701896397 / 2 ^ 52"
      "round_double 0.6 = 5404319552844595 / 2 ^ 53"
    using a by simp_all
  have "\<exists>n. items (spawnItem (6004799503160661 / 2 ^ 53) (3602879701896397 / 2 ^ 52)
            (constructor\<lparr>level := 2\<rparr>)) = [n]
        \<and> y n = - 50 \<and> active n \<and> lane n = 2 \<and> type n = ''grape''"
    using a unfolding c i by simp blast
  moreover have "\<exists>n. items (spawnItem (6004799503160661 / 2 ^ 54) (9 / 10)
            (constructor\<lparr>level := 2\<rparr>)) = [n]
        \<and> y n = - 50 \<and> active n \<and> lane n = 1 \<and> type n = ''bomb''"
    using b unfolding c i by simp blast
  ultimately show ?thesis by simp
qed

text \<open>
  Claim C7. For every configuration and every earlier state, \<^verbatim>\<open>start\<close> sets the score
  to 0, the level to 1, the items to the empty list, the basket to lane 1, the round to
  active, and records the clock reading as the start of the round.
\<close>

theorem start_resets:
  "score (start now cfg g) = 0 \<and> level (start now cfg g) = 1 \<and> items (start now cfg g) = []
   \<and> basketPosition (start now cfg g) = 1 \<and> isGameActive (start now cfg g)
   \<and> startTime (start now cfg g) = Some now"
  by (simp add: start_def)

theorem start_resets_witness:
  "score (start 1000 \<lparr>cfg_timeLimit = Some 30\<rparr> (stop (constructor\<lparr>score := 700, level := 3\<rparr>))) = 0
   \<and> level (start 1000 \<lparr>cfg_timeLimit = Some 30\<rparr> (stop (constructor\<lparr>score := 700, level := 3\<rparr>))) = 1
   \<and> isGameActive (start 1000 \<lparr>cfg_timeLimit = Some 30\<rparr> (stop (constructor\<lparr>score := 700, level := 3\<rparr>)))"
  using start_resets [of 1000 "\<lparr>cfg_timeLimit = Some 30\<rparr>" "stop (constructor\<lparr>score := 700, level := 3\<rparr>)"]
  by simp

text \<open>
  Claim C8. While the round is active the three pose names (the source's words for
  left, front and right) put the basket in lane 0, 1 and 2; while it is inactive any pose
  name leaves the whole state unchanged; a name outside the three never changes the
  basket's lane.
\<close>

theorem onPoseDetected_lanes:
  "(isGameActive g \<longrightarrow>
      basketPosition (onPoseDetected pose_left g) = 0 \<and>
      basketPosition (onPoseDetected pose_center g) = 1 \<and>
      basketPosition (onPoseDetected pose_right g) = 2)
   \<and> (\<not> isGameActive g \<longrightarrow> onPoseDetected p g = g)
   \<and> (p \<noteq> pose_left \<and> p \<noteq> pose_center \<and> p \<noteq> pose_right \<longrightarrow>
        basketPosition (onPoseDetected p g) = basketPosition g)"
  using pose_distinct by (simp add: onPoseDetected_def)

theorem onPoseDetected_lanes_witness:
  "basketPosition (onPoseDetected pose_left (start 0 \<lparr>cfg_timeLimit = None\<rparr> constructor)) = 0
   \<and> basketPosition (onPoseDetected pose_right (start 0 \<lparr>cfg_timeLimit = None\<rparr> constructor)) = 2
   \<and> basketPosition (onPoseDetected ''up'' (start 0 \<lparr>cfg_timeLimit = None\<rparr> constructor)) = 1
   \<and> onPoseDetected pose_left constructor = constructor"
  using onPoseDetected_lanes [of "start 0 \<lparr>cfg_timeLimit = None\<rparr> constructor" "''up''"]
    onPoseDetected_lanes [of constructor pose_left]
  by (simp add: start_def constructor_def pose_left_def pose_center_def pose_right_def)

text \<open>
  Claim C9. \<^verbatim>\<open>stop\<close> changes no field of the engine but the active flag, which it
  clears; the observer, when one is registered, is called once with the score and level
  held before the call.
\<close>

theorem stop_frame:
  "score (stop g) = score g \<and> level (stop g) = level g \<and> timeLimit (stop g) = timeLimit g
   \<and> basketPosition (stop g) = basketPosition g \<and> items (stop g) = items g
   \<and> spawnTimer (stop g) = spawnTimer g \<and> startTime (stop g) = startTime g
   \<and> lanes (stop g) = lanes g \<and> spawnInterval (stop g) = spawnInterval g
   \<and> dropSpeed (stop g) = dropSpeed g \<and> onGameEnd (stop g) = onGameEnd g
   \<and> \<not> isGameActive (stop g)
   \<and> endCalls (stop g) =
       endCalls g @ (case onGameEnd g of None \<Rightarrow> [] | Some cb \<Rightarrow> [(score g, level g)])"
  by (simp add: stop_simps)

theorem stop_frame_witness:
  "score (stop ((setGameEndCallback (Some Callback) constructor)\<lparr>score := 300, level := 2\<rparr>)) = 300
   \<and> endCalls (stop ((setGameEndCallback (Some Callback) constructor)\<lparr>score := 300, level := 2\<rparr>))
       = [(300, 2)]"
  using stop_frame [of "(setGameEndCallback (Some Callback) constructor)\<lparr>score := 300, level := 2\<rparr>"]
  by (simp add: setGameEndCallback_def constructor_def)

text \<open>
  Claim C10. Take the item that \<^verbatim>\<open>spawnItem\<close> has just appended, and run passes of
  \<^verbatim>\<open>updateItems\<close> at levels in \<open>{1, 2, 3}\<close> and basket lanes chosen freely for each pass.
  The item starts at \<open>-50\<close>, active. There is a pass \<open>n\<close> up to which the item is still in
  the list, at the position \<open>fall\<close> gives, and which moves it strictly between 500 and 560.
  In that pass the lane check decides what happens to it: it stays in the list exactly
  when the basket is in another lane, and when the basket is in its lane the score grows
  by at least the item's points and a bomb ends the round.
\<close>

theorem no_tunnelling:
  assumes "\<forall>i. lv i \<in> {1, 2, 3}"
    and "g0 = spawnItem r1 r2 g" and "it = last (items g0)"
  shows "y it = - 50 \<and> active it
       \<and> (\<exists>n. (\<forall>k\<le>n. it\<lparr> y := fall (- 50) (map lv [0..<k]) \<rparr>
                         \<in> set (items (run_ticks lv bp k g0)))
              \<and> 500 < fall (- 50) (map lv [0..<Suc n])
              \<and> fall (- 50) (map lv [0..<Suc n]) < 560
              \<and> (it\<lparr> y := fall (- 50) (map lv [0..<Suc n]) \<rparr>
                    \<in> set (items (run_ticks lv bp (Suc n) g0)) \<longleftrightarrow> lane it \<noteq> bp n)
              \<and> (lane it = bp n \<longrightarrow>
                    score (run_ticks lv bp n g0) + points it
                      \<le> score (run_ticks lv bp (Suc n) g0)
                    \<and> (type it = ''bomb'' \<longrightarrow> \<not> isGameActive (run_ticks lv bp (Suc n) g0))))"
proof -
  obtain s where s: "items g0 = items g @ [s]" "y s = - 50" "active s"
    unfolding assms(2) using spawnItem_items by blast
  have it: "it = s" "it \<in> set (items g0)" by (simp_all add: assms(3) s(1))
  have y0: "y it = - 50" and ac: "active it" using s it by simp_all
  define I where "I k = it\<lparr> y := fall (- 50) (map lv [0..<k]) \<rparr>" for k
  have I0: "I 0 = it" using y0 by (simp add: I_def)
  have Iy: "y (I k) = fall (- 50) (map lv [0..<k])" and Ia: "active (I k)"
    and Il: "lane (I k) = lane it" and It: "type (I k) = type it" and Ip: "points (I k) = points it"
    for k using ac by (simp_all add: I_def points_def)
  have Is: "advance (real_of_int (3 + (lv k * 2))) (I k) = I (Suc k)" for k
    unfolding I_def advance_def fall_Suc by simp
  from fall_reaches_band [OF assms(1)]
  obtain n where low: "\<forall>k\<le>n. fall (- 50) (map lv [0..<k]) \<le> 500"
    and b1: "500 < fall (- 50) (map lv [0..<Suc n])"
    and b2: "fall (- 50) (map lv [0..<Suc n]) < 560"
    by blast
  have mem: "k \<le> n \<Longrightarrow> I k \<in> set (items (run_ticks lv bp k g0))" for k
  proof (induction k)
    case 0
    show ?case using it(2) by (simp add: I0)
  next
    case (Suc k)
    then have m: "I k \<in> set (items (run_ticks lv bp k g0))" by simp
    have "fall (- 50) (map lv [0..<Suc k]) \<le> 500" using low Suc.prems by blast
    then have "y (I k) + real_of_int (3 + (lv k * 2)) \<le> 500"
      unfolding Iy fall_Suc by simp
    with m Ia have "advance (real_of_int (3 + (lv k * 2))) (I k)
        \<in> set (items (tick_at (lv k) (bp k) (run_ticks lv bp k g0)))"
      by (rule tick_at_keeps)
    then show ?case unfolding Is by simp
  qed
  have mn: "I n \<in> set (items (run_ticks lv bp n g0))" using mem by simp
  have c1: "500 < y (I n) + real_of_int (3 + (lv n * 2))"
    and c2: "y (I n) + real_of_int (3 + (lv n * 2)) < 560"
    using b1 b2 unfolding Iy fall_Suc by simp_all
  have d: "I (Suc n) \<in> set (items (run_ticks lv bp (Suc n) g0)) \<longleftrightarrow> lane it \<noteq> bp n"
    using tick_at_decides [OF mn Ia c1 c2, of "bp n"] unfolding Is Il by simp
  have r: "lane it = bp n \<longrightarrow>
             score (run_ticks lv bp n g0) + points it \<le> score (run_ticks lv bp (Suc n) g0)
             \<and> (type it = ''bomb'' \<longrightarrow> \<not> isGameActive (run_ticks lv bp (Suc n) g0))"
    using tick_at_resolves [OF mn Ia c1 c2, of "bp n"] unfolding Il It Ip by simp
  have "(\<forall>k\<le>n. I k \<in> set (items (run_ticks lv bp k g0)))" using mem by blast
  with b1 b2 d r y0 ac show ?thesis
    unfolding I_def by blast
qed

theorem no_tunnelling_witness:
  "last (items (spawnItem (1 / 2) (9 / 10) constructor))
     = \<lparr>x = Some 300, y = - 50, lane = 1, type = ''grape'', active = True\<rparr>
   \<and> (\<exists>n. 500 < fall (- 50) (map (\<lambda>i. if i < 50 then 1 else 2) [0..<Suc n])
          \<and> fall (- 50) (map (\<lambda>i. if i < 50 then 1 else 2) [0..<Suc n]) < 560
          \<and> \<lparr>x = Some 300, y = fall (- 50) (map (\<lambda>i. if i < 50 then 1 else 2) [0..<Suc n]),
               lane = 1, type = ''grape'', active = True\<rparr>
               \<notin> set (items (run_ticks (\<lambda>i. if i < 50 then 1 else 2) (\<lambda>i. 1) (Suc n)
                      (spawnItem (1 / 2) (9 / 10) constructor)))
          \<and> score (run_ticks (\<lambda>i. if i < 50 then 1 else 2) (\<lambda>i. 1) n
                      (spawnItem (1 / 2) (9 / 10) constructor)) + 200
              \<le> score (run_ticks (\<lambda>i. if i < 50 then 1 else 2) (\<lambda>i. 1) (Suc n)
                      (spawnItem (1 / 2) (9 / 10) constructor)))"
proof -
  define it0 where "it0 = \<lparr>x = Some 300, y = - 50, lane = 1, type = ''grape'', active = True\<rparr>"
  have h: "\<forall>i::nat. (if i < 50 then 1 else 2) \<in> {1, 2, 3::int}" by simp
  have e: "last (items (spawnItem (1 / 2) (9 / 10) constructor)) = it0"
    by (simp add: it0_def spawnItem_def Let_def constructor_def round_double_three_halves
        round_double_literals js_index_def)
  have p: "lane it0 = 1" "points it0 = 200"
    and u: "it0\<lparr>y := v\<rparr> = \<lparr>x = Some 300, y = v, lane = 1, type = ''grape'', active = True\<rparr>" for v
    by (simp_all add: it0_def points_def)
  note t = no_tunnelling [OF h refl refl, of "1 / 2" "9 / 10" constructor "\<lambda>i. 1"]
  from t [unfolded e]
  obtain n where n1: "500 < fall (- 50) (map (\<lambda>i. if i < 50 then 1 else 2) [0..<Suc n])"
    and n2: "fall (- 50) (map (\<lambda>i. if i < 50 then 1 else 2) [0..<Suc n]) < 560"
    and n3: "it0\<lparr>y := fall (- 50) (map (\<lambda>i. if i < 50 then 1 else 2) [0..<Suc n])\<rparr>
               \<in> set (items (run_ticks (\<lambda>i. if i < 50 then 1 else 2) (\<lambda>i. 1) (Suc n)
                      (spawnItem (1 / 2) (9 / 10) constructor))) \<longleftrightarrow> lane it0 \<noteq> 1"
    and n4: "lane it0 = 1 \<longrightarrow>
              score (run_ticks (\<lambda>i. if i < 50 then 1 else 2) (\<lambda>i. 1) n
                      (spawnItem (1 / 2) (9 / 10) constructor)) + points it0
              \<le> score (run_ticks (\<lambda>i. if i < 50 then 1 else 2) (\<lambda>i. 1) (Suc n)
                      (spawnItem (1 / 2) (9 / 10) constructor))"
    by blast
  have m3: "it0\<lparr>y := fall (- 50) (map (\<lambda>i. if i < 50 then 1 else 2) [0..<Suc n])\<rparr>
               \<notin> set (items (run_ticks (\<lambda>i. if i < 50 then 1 else 2) (\<lambda>i. 1) (Suc n)
                      (spawnItem (1 / 2) (9 / 10) constructor)))"
    using n3 p(1) by blast
  have m4: "score (run_ticks (\<lambda>i. if i < 50 then 1 else 2) (\<lambda>i. 1) n
                      (spawnItem (1 / 2) (9 / 10) constructor)) + 200
              \<le> score (run_ticks (\<lambda>i. if i < 50 then 1 else 2) (\<lambda>i. 1) (Suc n)
                      (spawnItem (1 / 2) (9 / 10) constructor))"
    using n4 p by (simp only:)
  show ?thesis
    using e n1 n2 m3 [unfolded u] m4 unfolding it0_def by blast
qed

end
